theory Spec2Isabelle
  imports Main "HOL-Library.AList" "HOL-Library.Word"
begin

section \<open>Filter-input synthesis (GraphTypeDefinitions/utils.py)\<close>

subsection \<open>Type descriptors\<close>

text \<open>
  The values that occur as annotations of a filter class, and as keys of
  \<open>inputTypeGQLMapper\<close>, are Python objects. The ones the program meets are: the five
  scalar classes that have a hand-written filter (\<open>str\<close>, \<open>int\<close>, \<open>bool\<close>,
  \<open>datetime.datetime\<close>, \<open>uuid.UUID\<close>); any other object that has a \<open>__name__\<close>
  (\<open>KClass\<close>, carrying that name, for instance \<open>float\<close>); a lazy reference
  \<open>Annotated["Name", strawberry.lazy(module)]\<close>; a filter class (\<open>KType\<close>), hand-written
  or created at run time; and an annotation without a \<open>__name__\<close>, such as a string.

  A filter class is referred to by its identity, the number under which the store holds
  it, together with the \<open>__name__\<close> it was created with, which nothing changes afterwards.
\<close>

datatype class_ref = ClassRef (ref_id: nat) (ref_name: string)

datatype kind =
    KStr | KInt | KBool | KDatetime | KUuid
  | KClass string
  | KLazy string string
  | KType class_ref
  | KString string

text \<open>
  Type expressions as they are written on the right of an annotation:
  a Python object, a forward reference given as a string inside \<open>typing.List[...]\<close>,
  \<open>typing.Optional[...]\<close> and \<open>typing.List[...]\<close>.
\<close>

datatype tyexpr =
    TKind kind
  | TRef string
  | TOptional tyexpr
  | TList tyexpr

text \<open>\<open>strawberry.field(name=..., description=..., default=None)\<close>: the default is always \<open>None\<close>.\<close>

record sfield =
  sf_name :: string
  sf_description :: string

text \<open>
  A class turned into a strawberry input: its \<open>__name__\<close>, its base class (\<open>None\<close> stands
  for the builtin \<open>object\<close>), its \<open>__annotations__\<close> (a dict, kept in insertion order), the
  attributes set on it and the description given to \<open>strawberry.input\<close>.
\<close>

record input_type =
  ty_name :: string
  ty_base :: "kind option"
  ty_annotations :: "(string \<times> tyexpr) list"
  ty_attrs :: "(string \<times> sfield) list"
  ty_description :: string

text \<open>
  The exceptions: the AttributeError of reading an attribute that is not there, the
  ValueError of \<open>uuid.UUID\<close>, and \<open>GlobalRebound\<close> for the exception (a TypeError, an
  AttributeError or a KeyError, as the use may be) that \<open>createInputs\<close> meets when one of its
  own global names has been bound to a generated class, see \<open>rebound\<close> below.
\<close>

datatype py_error = AttributeError | ValueError | GlobalRebound

subsection \<open>Python dicts as association lists\<close>

text \<open>
  \<open>d[k] = v\<close> replaces the value of an existing key in place and appends a new key at the
  end (\<open>AList.update\<close>); \<open>{**d, **e}\<close> and a dict comprehension store the items one after
  the other.
\<close>

definition dict_update :: "('k \<times> 'v) list \<Rightarrow> ('k \<times> 'v) list \<Rightarrow> ('k \<times> 'v) list" where
  "dict_update d e = fold (\<lambda>(k, v). AList.update k v) e d"

subsection \<open>The process-wide state\<close>

text \<open>
  \<open>heap\<close> holds the class objects created so far, \<open>next_id\<close> is the identity the next one
  gets, \<open>inputTypeGQLMapper\<close> is the global dictionary of utils.py, and \<open>module_attrs\<close>
  holds the names of the module utils (\<open>sys.modules[__name__]\<close>) that are bound to a filter
  class or to an annotation object: the five hand-written filters at first, and whatever
  \<open>setattr(this, r.__name__, r)\<close> binds later. A name that is not in \<open>module_attrs\<close> has the
  meaning it had when utils.py was imported (a module, the dictionary, a builtin).
\<close>

record state =
  heap :: "nat \<Rightarrow> input_type"
  next_id :: nat
  inputTypeGQLMapper :: "kind \<rightharpoonup> class_ref"
  module_attrs :: "string \<rightharpoonup> kind"

text \<open>Creating a class: it gets the next identity and is stored under it.\<close>

definition alloc :: "state \<Rightarrow> input_type \<Rightarrow> class_ref \<times> state" where
  "alloc s t =
     (ClassRef (next_id s) (ty_name t),
      s\<lparr>heap := (heap s)(next_id s := t), next_id := Suc (next_id s)\<rparr>)"

text \<open>
  \<open>obj.__name__\<close>. A lazy reference is an \<open>Annotated\<close> alias, whose \<open>__name__\<close> is the
  one of \<open>typing.Annotated\<close>; a string has none.
\<close>

fun kind_name :: "kind \<Rightarrow> string option" where
  "kind_name KStr = Some ''str''"
| "kind_name KInt = Some ''int''"
| "kind_name KBool = Some ''bool''"
| "kind_name KDatetime = Some ''datetime''"
| "kind_name KUuid = Some ''UUID''"
| "kind_name (KClass n) = Some n"
| "kind_name (KLazy n m) = Some ''Annotated''"
| "kind_name (KType r) = Some (ref_name r)"
| "kind_name (KString s) = None"

text \<open>
  The module's namespace is also where \<open>createInputs\<close> and its inner functions look up
  their global names: \<open>print\<close>, \<open>zip\<close>, \<open>inputTypeGQLMapper\<close>, \<open>typing\<close>, \<open>logging\<close>,
  \<open>type\<close>, \<open>object\<close>, \<open>strawberry\<close>, \<open>setattr\<close>, \<open>sys\<close> and \<open>__name__\<close> (a module
  attribute hides a builtin of the same name). Once \<open>setattr(this, r.__name__, r)\<close> has bound
  such a name to a generated class, using it raises: a strawberry class takes keyword
  arguments only, so calling it as \<open>print\<close>, \<open>zip\<close>, \<open>type\<close> or \<open>setattr\<close> is a
  TypeError; it has none of the attributes \<open>get\<close>, \<open>Annotated\<close>, \<open>Optional\<close>, \<open>List\<close>,
  \<open>info\<close>, \<open>field\<close>, \<open>input\<close>, \<open>modules\<close> (or has \<open>None\<close> there, when a field is so
  called), it supports no item assignment, and it is no key of \<open>sys.modules\<close>. Only
  \<open>object\<close> is used without an error: the classes created afterwards inherit from the
  class it is bound to.
\<close>

definition rebound :: "state \<Rightarrow> string list \<Rightarrow> bool" where
  "rebound s names = list_ex (\<lambda>n. module_attrs s n \<noteq> None) names"

subsection \<open>The hand-written filters\<close>

definition op_field :: "string \<Rightarrow> string \<times> sfield" where
  "op_field op = (op, \<lparr>sf_name = op, sf_description = ''operation for select.filter() method''\<rparr>)"

definition scalar_filter :: "string \<Rightarrow> string \<Rightarrow> (string \<times> tyexpr) list \<Rightarrow> input_type" where
  "scalar_filter name description slots =
     \<lparr>ty_name = name, ty_base = None, ty_annotations = slots,
      ty_attrs = map (op_field \<circ> fst) slots, ty_description = description\<rparr>"

definition StrFilter :: input_type where
  "StrFilter = scalar_filter ''StrFilter'' ''Str filter methods, only one constrain allowed''
     [(''_eq'', TOptional (TKind KStr)), (''_le'', TOptional (TKind KStr)),
      (''_lt'', TOptional (TKind KStr)), (''_ge'', TOptional (TKind KStr)),
      (''_gt'', TOptional (TKind KStr)), (''_like'', TOptional (TKind KStr)),
      (''_ilike'', TOptional (TKind KStr)), (''_startswith'', TOptional (TKind KStr)),
      (''_endswith'', TOptional (TKind KStr))]"

definition DatetimeFilter :: input_type where
  "DatetimeFilter = scalar_filter ''DatetimeFilter''
     ''Datetime filter methods, only one constrain allowed''
     [(''_eq'', TOptional (TKind KDatetime)), (''_le'', TOptional (TKind KDatetime)),
      (''_lt'', TOptional (TKind KDatetime)), (''_ge'', TOptional (TKind KDatetime)),
      (''_gt'', TOptional (TKind KDatetime))]"

definition IntFilter :: input_type where
  "IntFilter = scalar_filter ''IntFilter'' ''Integer filter methods, only one constrain allowed''
     [(''_eq'', TOptional (TKind KInt)), (''_le'', TOptional (TKind KInt)),
      (''_lt'', TOptional (TKind KInt)), (''_ge'', TOptional (TKind KInt)),
      (''_gt'', TOptional (TKind KInt)), (''_in'', TOptional (TList (TKind KInt)))]"

definition BoolFilter :: input_type where
  "BoolFilter = scalar_filter ''BoolFilter'' ''Integer filter methods, only one constrain allowed''
     [(''_eq'', TOptional (TKind KBool))]"

definition UuidFilter :: input_type where
  "UuidFilter = scalar_filter ''UuidFilter'' ''Integer filter methods, only one constrain allowed''
     [(''_eq'', TOptional (TKind KUuid)), (''_in'', TOptional (TList (TKind KUuid)))]"

text \<open>
  The state once utils.py has been imported: the five filter classes exist, are attributes
  of the module, and are registered for their scalar classes. Every call of
  \<open>createInputs\<close> comes from a module that imports utils.py first.
\<close>

definition init_heap :: "nat \<Rightarrow> input_type" where
  "init_heap = (\<lambda>i. scalar_filter [] [] [])
     (0 := StrFilter, 1 := DatetimeFilter, 2 := IntFilter, 3 := BoolFilter, 4 := UuidFilter)"

definition init_state :: state where
  "init_state =
     \<lparr>heap = init_heap,
      next_id = 5,
      inputTypeGQLMapper =
        [KUuid \<mapsto> ClassRef 4 ''UuidFilter'', KInt \<mapsto> ClassRef 2 ''IntFilter'',
         KStr \<mapsto> ClassRef 0 ''StrFilter'', KDatetime \<mapsto> ClassRef 1 ''DatetimeFilter'',
         KBool \<mapsto> ClassRef 3 ''BoolFilter''],
      module_attrs =
        [''StrFilter'' \<mapsto> KType (ClassRef 0 ''StrFilter''),
         ''DatetimeFilter'' \<mapsto> KType (ClassRef 1 ''DatetimeFilter''),
         ''IntFilter'' \<mapsto> KType (ClassRef 2 ''IntFilter''),
         ''BoolFilter'' \<mapsto> KType (ClassRef 3 ''BoolFilter''),
         ''UuidFilter'' \<mapsto> KType (ClassRef 4 ''UuidFilter'')]\<rparr>"

subsection \<open>createInputs\<close>

text \<open>A class decorated with \<open>createInputs\<close>: its name and its annotations, in order.\<close>

record cls =
  cls_name :: string
  cls_annotations :: "(string \<times> kind) list"

definition operator_slots :: "string list" where
  "operator_slots = [''_eq'', ''_le'', ''_lt'', ''_ge'', ''_gt'']"

text \<open>
  The class that \<open>createCustomInput\<close> builds when the mapper has no entry:
  \<open>type(name, (object,), {})\<close> with the five annotations, turned into an input.
\<close>

definition new_operator_type :: "kind option \<Rightarrow> string \<Rightarrow> string \<Rightarrow> kind \<Rightarrow> input_type" where
  "new_operator_type base field name baseType =
     \<lparr>ty_name = name,
      ty_base = base,
      ty_annotations = map (\<lambda>op. (op, TOptional (TKind baseType))) operator_slots,
      ty_attrs = map op_field operator_slots,
      ty_description =
        ''Expression on attribute '' @ [CHR 0x27] @ field @ [CHR 0x27]
          @ ''. Only one constrain allowed.''\<rparr>"

text \<open>
  The globals are read in the order of the source: \<open>inputTypeGQLMapper\<close> (line 30); with an
  entry, \<open>logging\<close> and \<open>print\<close> (47, 48); without one, \<open>print\<close> (32), then
  \<open>baseType.__name__\<close> (33), \<open>typing\<close> (34), and for a kind that is not called
  \<open>Annotated\<close>, \<open>logging\<close>, \<open>type\<close>, \<open>object\<close>, \<open>strawberry\<close> and \<open>setattr\<close> (37-45).
\<close>

definition createCustomInput ::
    "state \<Rightarrow> string \<Rightarrow> string \<Rightarrow> kind \<Rightarrow> py_error + kind \<times> state" where
  "createCustomInput s field name baseType =
     (if rebound s [''inputTypeGQLMapper''] then Inl GlobalRebound
      else case inputTypeGQLMapper s baseType of
        Some result \<Rightarrow>
          if rebound s [''logging'', ''print''] then Inl GlobalRebound
          else Inr (KType result, s)
      | None \<Rightarrow>
          if rebound s [''print''] then Inl GlobalRebound
          else (case kind_name baseType of
             None \<Rightarrow> Inl AttributeError
           | Some n \<Rightarrow>
               if rebound s [''typing''] then Inl GlobalRebound
               else if n = ''Annotated'' then Inr (baseType, s)
               else if rebound s [''logging'', ''type'', ''strawberry'', ''setattr'']
               then Inl GlobalRebound
               else (case alloc s (new_operator_type (module_attrs s ''object'')
                                     field name baseType) of
                       (result, s') \<Rightarrow> Inr (KType result, s'))))"

text \<open>The list comprehension over \<open>zip(fieldNames, opNames, types)\<close>.\<close>

fun createCustomInputs ::
    "state \<Rightarrow> (string \<times> string \<times> kind) list \<Rightarrow> py_error + kind list \<times> state" where
  "createCustomInputs s [] = Inr ([], s)"
| "createCustomInputs s ((field, name, baseType) # rest) =
     (case createCustomInput s field name baseType of
        Inl e \<Rightarrow> Inl e
      | Inr (t, s1) \<Rightarrow>
          (case createCustomInputs s1 rest of
             Inl e \<Rightarrow> Inl e
           | Inr (ts, s2) \<Rightarrow> Inr (t # ts, s2)))"

definition filter_field :: "string \<Rightarrow> string \<times> sfield" where
  "filter_field op = (op, \<lparr>sf_name = op, sf_description = ''Filter method''\<rparr>)"

text \<open>
  \<open>createOr\<close>, \<open>createAnd\<close> and \<open>createWhereOp\<close> with the \<open>strawberry.input\<close> around
  them; \<open>base\<close> is what the name \<open>object\<close> is bound to.
\<close>

definition createOr ::
    "kind option \<Rightarrow> string \<Rightarrow> string \<Rightarrow> string \<Rightarrow> (string \<times> tyexpr) list \<Rightarrow> input_type" where
  "createOr base clsname orName andName inputTypesDict =
     (let anotations =
            dict_update [(''_and'', TOptional (TList (TRef andName)))] inputTypesDict
      in \<lparr>ty_name = orName, ty_base = base, ty_annotations = anotations,
          ty_attrs = map (filter_field \<circ> fst) anotations,
          ty_description = ''Or operator definition on '' @ clsname\<rparr>)"

definition createAnd ::
    "kind option \<Rightarrow> string \<Rightarrow> string \<Rightarrow> string \<Rightarrow> (string \<times> tyexpr) list \<Rightarrow> input_type" where
  "createAnd base clsname andName orName inputTypesDict =
     (let anotations =
            dict_update [(''_or'', TOptional (TList (TRef orName)))] inputTypesDict
      in \<lparr>ty_name = andName, ty_base = base, ty_annotations = anotations,
          ty_attrs = map (filter_field \<circ> fst) anotations,
          ty_description = ''And operator definition on '' @ clsname\<rparr>)"

definition createWhereOp ::
    "kind option \<Rightarrow> string \<Rightarrow> string \<Rightarrow> class_ref \<Rightarrow> class_ref
       \<Rightarrow> (string \<times> tyexpr) list \<Rightarrow> input_type" where
  "createWhereOp base clsname whereName orOp andOp inputTypesDict =
     (let anotations =
            dict_update [(''_or'', TOptional (TList (TKind (KType orOp)))),
                         (''_and'', TOptional (TList (TKind (KType andOp))))] inputTypesDict
      in \<lparr>ty_name = whereName, ty_base = base, ty_annotations = anotations,
          ty_attrs = map (filter_field \<circ> fst) anotations,
          ty_description = ''Operators definition on '' @ clsname\<rparr>)"

text \<open>
  \<open>for r in result: setattr(this, r.__name__, r)\<close>. The name \<open>setattr\<close> is looked up at
  every turn of the loop, in the namespace as the turns before have left it.
\<close>

fun register :: "state \<Rightarrow> kind list \<Rightarrow> py_error + state" where
  "register s [] = Inr s"
| "register s (r # rs) =
     (case kind_name r of
        None \<Rightarrow> Inl AttributeError
      | Some n \<Rightarrow>
          if rebound s [''setattr''] then Inl GlobalRebound
          else register (s\<lparr>module_attrs := (module_attrs s)(n \<mapsto> r)\<rparr>) rs)"

text \<open>
  \<open>createInputs\<close>: \<open>print\<close> (line 15) and \<open>zip\<close> (52) are read first; the input types
  are built; the dict comprehension and the three \<open>create\<close> functions read \<open>typing\<close>,
  \<open>type\<close>, \<open>object\<close>, \<open>strawberry\<close> and \<open>setattr\<close> (58-116); line 122 reads \<open>sys\<close> and
  \<open>__name__\<close>; the loop registers; line 129 reads \<open>inputTypeGQLMapper\<close> in the namespace
  as the loop has left it. An exception ends the import of the module that declares the
  class, so a failed call returns no state.
\<close>

definition createInputs :: "state \<Rightarrow> cls \<Rightarrow> py_error + class_ref \<times> state" where
  "createInputs s c =
     (let clsname = cls_name c;
          whereName = clsname;
          orName = clsname @ ''_or'';
          andName = clsname @ ''_and'';
          fieldNames = map fst (cls_annotations c);
          opNames = map (\<lambda>field_name. clsname @ ''_'' @ field_name) fieldNames;
          types = map snd (cls_annotations c)
      in if rebound s [''print'', ''zip''] then Inl GlobalRebound
         else case createCustomInputs s (zip fieldNames (zip opNames types)) of
           Inl e \<Rightarrow> Inl e
         | Inr (inputTypes, s1) \<Rightarrow>
             if rebound s1 [''typing'', ''type'', ''strawberry'', ''setattr'']
             then Inl GlobalRebound
             else
             (let inputTypesDict =
                    dict_update [] (zip fieldNames (map (TOptional \<circ> TKind) inputTypes));
                  base = module_attrs s1 ''object''
              in case alloc s1 (createOr base clsname orName andName inputTypesDict) of
                   (orOp, s2) \<Rightarrow>
                 (case alloc s2 (createAnd base clsname andName orName inputTypesDict) of
                   (andOp, s3) \<Rightarrow>
                 (case alloc s3 (createWhereOp base clsname whereName orOp andOp
                                   inputTypesDict) of
                   (whereOp, s4) \<Rightarrow>
                 if rebound s4 [''sys'', ''__name__''] then Inl GlobalRebound
                 else
                 (case register s4 ([KType whereOp, KType andOp, KType orOp] @ inputTypes) of
                    Inl e \<Rightarrow> Inl e
                  | Inr s5 \<Rightarrow>
                      if rebound s5 [''inputTypeGQLMapper''] then Inl GlobalRebound
                      else
                      Inr (whereOp,
                           s5\<lparr>inputTypeGQLMapper :=
                                 (inputTypeGQLMapper s5)
                                   (KType whereOp \<mapsto> whereOp)\<rparr>))))))"

text \<open>
  The states the program can be in when a decorated class is met: the state after the import
  of utils.py, and the state after any successful call of \<open>createInputs\<close> from such a
  state. (A call that raises has created local classes only and leaves the globals as they
  were.)
\<close>

inductive reachable :: "state \<Rightarrow> bool" where
  reachable_init: "reachable init_state"
| reachable_step: "reachable s \<Longrightarrow> createInputs s c = Inr (w, s') \<Longrightarrow> reachable s'"

text \<open>
  Two of the decorated classes (membershipGQLModel.py, groupGQLModel.py). The membership
  filter refers to the group and user filters lazily; the group filter imports the membership
  filter, so its \<open>memberships\<close> annotation is the class that \<open>createInputs\<close> returned for
  the membership filter.
\<close>

definition MembershipInputWhereFilter :: cls where
  "MembershipInputWhereFilter =
     \<lparr>cls_name = ''MembershipInputWhereFilter'',
      cls_annotations =
        [(''valid'', KBool),
         (''group'', KLazy ''GroupInputWhereFilter'' ''.groupGQLModel''),
         (''user'', KLazy ''UserInputWhereFilter'' ''.userGQLModel'')]\<rparr>"

definition GroupInputWhereFilter :: "class_ref \<Rightarrow> cls" where
  "GroupInputWhereFilter membershipFilter =
     \<lparr>cls_name = ''GroupInputWhereFilter'',
      cls_annotations =
        [(''name'', KStr), (''valid'', KBool), (''memberships'', KType membershipFilter)]\<rparr>"

section \<open>Entity resolvers\<close>

subsection \<open>Rows, loaders and result envelopes\<close>

text \<open>A \<open>uuid.UUID\<close> is a 128-bit value.\<close>

type_synonym uuid = "128 word"

text \<open>
  A row as a loader returns it: its \<open>id\<close>, its \<open>name\<close>, and the attribute
  \<open>__strawberry_definition__\<close> that \<open>resolve_reference\<close> sets (absent before).
\<close>

record row =
  row_id :: uuid
  row_name :: string
  strawberry_definition :: "string option"

text \<open>
  The loader of one entity kind, as far as the handlers use it: \<open>update\<close> and \<open>insert\<close>
  take the input record and return the affected row or \<open>None\<close>; \<open>load\<close> takes an id.
  The loader is given by the surrounding application; here it is a parameter.
\<close>

record 'm loader =
  loader_update :: "'m \<Rightarrow> row option"
  loader_insert :: "'m \<Rightarrow> row option"
  loader_load :: "uuid \<Rightarrow> row option"

text \<open>
  The input records: an update model has a mandatory \<open>id\<close>, an insert model an optional
  one; the other fields are not read by the handlers.
\<close>

record update_model =
  upd_id :: uuid

record insert_model =
  ins_id :: "uuid option"

text \<open>
  \<open>GroupResultGQLModel\<close>, \<open>UserResultGQLModel\<close> and the others: \<open>id\<close> and \<open>msg\<close>, both
  \<open>None\<close> by default.
\<close>

record result_model =
  res_id :: "uuid option"
  res_msg :: "string option"

definition empty_result :: result_model where
  "empty_result = \<lparr>res_id = None, res_msg = None\<rparr>"

subsection \<open>Mutation handlers\<close>

text \<open>Reading \<open>row.id\<close> raises AttributeError when the row is \<open>None\<close>.\<close>

definition attr_id :: "row option \<Rightarrow> py_error + uuid" where
  "attr_id r = (case r of None \<Rightarrow> Inl AttributeError | Some x \<Rightarrow> Inr (row_id x))"

definition group_update ::
    "('a update_model_scheme) loader \<Rightarrow> 'a update_model_scheme \<Rightarrow> py_error + result_model" where
  "group_update ld grp =
     (let updatedrow = loader_update ld grp
      in if updatedrow = None
         then Inr \<lparr>res_id = Some (upd_id grp), res_msg = Some ''fail''\<rparr>
         else Inr \<lparr>res_id = Some (upd_id grp), res_msg = Some ''ok''\<rparr>)"

definition group_insert ::
    "('a insert_model_scheme) loader \<Rightarrow> 'a insert_model_scheme \<Rightarrow> py_error + result_model" where
  "group_insert ld grp =
     (let updatedrow = loader_insert ld grp
      in case attr_id updatedrow of
           Inl e \<Rightarrow> Inl e
         | Inr i \<Rightarrow>
             (let result = empty_result;
                  result = result\<lparr>res_id := Some i\<rparr>;
                  result = result\<lparr>res_msg := Some ''ok''\<rparr>;
                  result = (if updatedrow = None then result\<lparr>res_msg := Some ''fail''\<rparr>
                            else result)
              in Inr result))"

definition group_type_update ::
    "('a update_model_scheme) loader \<Rightarrow> 'a update_model_scheme \<Rightarrow> py_error + result_model" where
  "group_type_update ld group_type =
     (let updatedrow = loader_update ld group_type;
          result = empty_result;
          result = result\<lparr>res_msg := Some ''ok''\<rparr>;
          result = result\<lparr>res_id := Some (upd_id group_type)\<rparr>;
          result = (if updatedrow = None then result\<lparr>res_msg := Some ''fail''\<rparr> else result)
      in Inr result)"

definition group_type_insert ::
    "('a insert_model_scheme) loader \<Rightarrow> 'a insert_model_scheme \<Rightarrow> py_error + result_model" where
  "group_type_insert ld group_type =
     (let updatedrow = loader_insert ld group_type;
          result = empty_result
      in case attr_id updatedrow of
           Inl e \<Rightarrow> Inl e
         | Inr i \<Rightarrow>
             (let result = result\<lparr>res_id := Some i\<rparr>;
                  result = result\<lparr>res_msg := Some ''ok''\<rparr>;
                  result = (if updatedrow = None then result\<lparr>res_msg := Some ''fail''\<rparr>
                            else result)
              in Inr result))"

definition user_update ::
    "('a update_model_scheme) loader \<Rightarrow> 'a update_model_scheme \<Rightarrow> py_error + result_model" where
  "user_update ld user =
     (let updatedrow = loader_update ld user;
          result = empty_result;
          result = result\<lparr>res_id := Some (upd_id user)\<rparr>;
          result = (if updatedrow = None then result\<lparr>res_msg := Some ''fail''\<rparr>
                    else result\<lparr>res_msg := Some ''ok''\<rparr>)
      in Inr result)"

definition user_insert ::
    "('a insert_model_scheme) loader \<Rightarrow> 'a insert_model_scheme \<Rightarrow> py_error + result_model" where
  "user_insert ld user =
     (let row = loader_insert ld user;
          result = empty_result
      in case attr_id row of
           Inl e \<Rightarrow> Inl e
         | Inr i \<Rightarrow>
             (let result = result\<lparr>res_id := Some i\<rparr>;
                  result = result\<lparr>res_msg := Some ''ok''\<rparr>
              in Inr result))"

definition membership_update ::
    "('a update_model_scheme) loader \<Rightarrow> 'a update_model_scheme \<Rightarrow> py_error + result_model" where
  "membership_update ld membership =
     (let updatedrow = loader_update ld membership;
          result = empty_result;
          result = result\<lparr>res_msg := Some ''ok''\<rparr>;
          result = result\<lparr>res_id := Some (upd_id membership)\<rparr>;
          result = (if updatedrow = None then result\<lparr>res_msg := Some ''fail''\<rparr> else result)
      in Inr result)"

definition membership_insert ::
    "('a insert_model_scheme) loader \<Rightarrow> 'a insert_model_scheme \<Rightarrow> py_error + result_model" where
  "membership_insert ld membership =
     (let row = loader_insert ld membership;
          result = empty_result;
          result = result\<lparr>res_msg := Some ''ok''\<rparr>
      in case attr_id row of
           Inl e \<Rightarrow> Inl e
         | Inr i \<Rightarrow> Inr (result\<lparr>res_id := Some i\<rparr>))"

definition role_category_update ::
    "('a update_model_scheme) loader \<Rightarrow> 'a update_model_scheme \<Rightarrow> py_error + result_model" where
  "role_category_update ld role_category =
     (let row = loader_update ld role_category;
          result = empty_result;
          result = result\<lparr>res_msg := Some ''ok''\<rparr>;
          result = result\<lparr>res_id := Some (upd_id role_category)\<rparr>
      in case row of
           None \<Rightarrow> Inr (result\<lparr>res_msg := Some ''fail''\<rparr>)
         | Some r \<Rightarrow> Inr (result\<lparr>res_id := Some (row_id r)\<rparr>))"

definition role_category_insert ::
    "('a insert_model_scheme) loader \<Rightarrow> 'a insert_model_scheme \<Rightarrow> py_error + result_model" where
  "role_category_insert ld role_category =
     (let row = loader_insert ld role_category;
          result = empty_result;
          result = result\<lparr>res_msg := Some ''ok''\<rparr>
      in case attr_id row of
           Inl e \<Rightarrow> Inl e
         | Inr i \<Rightarrow> Inr (result\<lparr>res_id := Some i\<rparr>))"

subsection \<open>resolve_reference (BaseGQLModel.py)\<close>

text \<open>
  The \<open>id\<close> argument: \<open>None\<close>, a string or a UUID. \<open>uuid.UUID(string)\<close> belongs to
  Python's library; it is the parameter \<open>parse\<close>, with \<open>None\<close> where the library raises
  ValueError.
\<close>

datatype id_arg = IdNone | IdStr string | IdUuid uuid

text \<open>
  \<open>loader.load(id)\<close> with the calls recorded: the second component lists the ids the
  loader has been asked for, in order.
\<close>

definition load_logged :: "'m loader \<Rightarrow> uuid list \<Rightarrow> uuid \<Rightarrow> row option \<times> uuid list" where
  "load_logged ld calls i = (loader_load ld i, calls @ [i])"

text \<open>
  \<open>cls_definition\<close> is \<open>cls.__strawberry_definition__\<close> and \<open>ld\<close> is
  \<open>cls.getLoader(info)\<close> of the entity model at hand.
\<close>

definition resolve_reference ::
    "string \<Rightarrow> (string \<Rightarrow> uuid option) \<Rightarrow> 'm loader \<Rightarrow> uuid list \<Rightarrow> id_arg
       \<Rightarrow> py_error + row option \<times> uuid list" where
  "resolve_reference cls_definition parse ld calls ident =
     (case ident of
        IdNone \<Rightarrow> Inr (None, calls)
      | _ \<Rightarrow>
          (case (case ident of IdStr str \<Rightarrow> parse str | IdUuid u \<Rightarrow> Some u | IdNone \<Rightarrow> None) of
             None \<Rightarrow> Inl ValueError
           | Some u \<Rightarrow>
               (case load_logged ld calls u of
                  (result, calls') \<Rightarrow>
                    Inr (map_option (\<lambda>r. r\<lparr>strawberry_definition := Some cls_definition\<rparr>) result,
                         calls'))))"

subsection \<open>Vocabulary for the properties\<close>

text \<open>
  The module attributes after \<open>setattr(this, r.__name__, r)\<close> for each \<open>r\<close> of a list whose
  members all have a name.
\<close>

fun set_attrs :: "(string \<rightharpoonup> kind) \<Rightarrow> kind list \<Rightarrow> (string \<rightharpoonup> kind)" where
  "set_attrs m [] = m"
| "set_attrs m (r # rs) = set_attrs (case kind_name r of None \<Rightarrow> m | Some n \<Rightarrow> m(n \<mapsto> r)) rs"

text \<open>
  What \<open>createCustomInput\<close> gives for one field \<open>(field, name, kind)\<close> between the states \<open>s\<close>
  and \<open>s1\<close>: the registered class of the kind; or the kind itself when it is not registered
  and is called \<open>Annotated\<close>; or else a class created in between, named \<open>name\<close>, with the
  five operator slots.
\<close>

definition field_input :: "state \<Rightarrow> state \<Rightarrow> string \<times> string \<times> kind \<Rightarrow> kind \<Rightarrow> bool" where
  "field_input s s1 x t =
     (case x of (f, n, k) \<Rightarrow>
        (case inputTypeGQLMapper s k of
           Some r \<Rightarrow> t = KType r
         | None \<Rightarrow>
             if kind_name k = Some ''Annotated'' then t = k
             else (\<exists>i. next_id s \<le> i \<and> i < next_id s1 \<and> t = KType (ClassRef i n)
                       \<and> heap s1 i = new_operator_type (module_attrs s ''object'') f n k)))"

text \<open>
  The triples \<open>zip(fieldNames, opNames, types)\<close> of a class.
\<close>

definition field_specs :: "cls \<Rightarrow> (string \<times> string \<times> kind) list" where
  "field_specs c = map (\<lambda>(f, k). (f, cls_name c @ ''_'' @ f, k)) (cls_annotations c)"

text \<open>
  \<open>inputTypesDict\<close> for the input types \<open>ts\<close> of the fields.
\<close>

definition fields_dict :: "cls \<Rightarrow> kind list \<Rightarrow> (string \<times> tyexpr) list" where
  "fields_dict c ts =
     dict_update [] (zip (map fst (cls_annotations c)) (map (TOptional \<circ> TKind) ts))"

text \<open>
  The OrType, the AndType and the WhereType created after the input types, when the state
  is \<open>s1\<close>; the state once they exist; and the list \<open>result\<close> that is registered.
\<close>

definition or_ref :: "cls \<Rightarrow> state \<Rightarrow> class_ref" where
  "or_ref c s1 = ClassRef (next_id s1) (cls_name c @ ''_or'')"

definition and_ref :: "cls \<Rightarrow> state \<Rightarrow> class_ref" where
  "and_ref c s1 = ClassRef (Suc (next_id s1)) (cls_name c @ ''_and'')"

definition where_ref :: "cls \<Rightarrow> state \<Rightarrow> class_ref" where
  "where_ref c s1 = ClassRef (Suc (Suc (next_id s1))) (cls_name c)"

definition built :: "cls \<Rightarrow> state \<Rightarrow> kind list \<Rightarrow> state" where
  "built c s1 ts =
     s1\<lparr>heap := (heap s1)
           (next_id s1 :=
              createOr (module_attrs s1 ''object'') (cls_name c) (cls_name c @ ''_or'')
                (cls_name c @ ''_and'') (fields_dict c ts),
            Suc (next_id s1) :=
              createAnd (module_attrs s1 ''object'') (cls_name c) (cls_name c @ ''_and'')
                (cls_name c @ ''_or'') (fields_dict c ts),
            Suc (Suc (next_id s1)) :=
              createWhereOp (module_attrs s1 ''object'') (cls_name c) (cls_name c)
                (or_ref c s1) (and_ref c s1) (fields_dict c ts)),
         next_id := Suc (Suc (Suc (next_id s1)))\<rparr>"

definition produced :: "cls \<Rightarrow> state \<Rightarrow> kind list \<Rightarrow> kind list" where
  "produced c s1 ts =
     [KType (where_ref c s1), KType (and_ref c s1), KType (or_ref c s1)] @ ts"

text \<open>
  The global names that \<open>createInputs\<close> and its inner functions read, and the states in
  which none of them has been bound to a generated class.
\<close>

definition used_globals :: "string list" where
  "used_globals =
     [''print'', ''zip'', ''inputTypeGQLMapper'', ''typing'', ''logging'', ''type'', ''object'',
      ''strawberry'', ''setattr'', ''sys'', ''__name__'']"

definition globals_intact :: "state \<Rightarrow> bool" where
  "globals_intact s \<longleftrightarrow> \<not> rebound s used_globals"

text \<open>
  An invariant of the reachable states: apart from the five scalar classes, the keys of
  \<open>inputTypeGQLMapper\<close> are existing classes, each registered for itself.
\<close>

definition wf_state :: "state \<Rightarrow> bool" where
  "wf_state s \<longleftrightarrow>
     (\<forall>k r. inputTypeGQLMapper s k = Some r \<longrightarrow>
        k \<in> {KStr, KInt, KBool, KDatetime, KUuid} \<or> (k = KType r \<and> ref_id r < next_id s))"

section \<open>Properties\<close>

lemmas filter_defs = StrFilter_def DatetimeFilter_def IntFilter_def BoolFilter_def UuidFilter_def
  scalar_filter_def new_operator_type_def operator_slots_def

lemmas handler_defs = group_update_def group_insert_def group_type_update_def
  group_type_insert_def user_update_def user_insert_def membership_update_def
  membership_insert_def role_category_update_def role_category_insert_def attr_id_def
  empty_result_def Let_def

subsection \<open>The steps of createInputs\<close>

lemma rebound_iff: "rebound s ns \<longleftrightarrow> (\<exists>n \<in> set ns. module_attrs s n \<noteq> None)"
  by (simp add: rebound_def list_ex_iff)

lemma rebound_frame: "module_attrs s1 = module_attrs s \<Longrightarrow> rebound s1 ns = rebound s ns"
  by (simp add: rebound_iff)

lemma intact_names:
  assumes "globals_intact s"
  shows "module_attrs s ''print'' = None" "module_attrs s ''zip'' = None"
    "module_attrs s ''inputTypeGQLMapper'' = None" "module_attrs s ''typing'' = None"
    "module_attrs s ''logging'' = None" "module_attrs s ''type'' = None"
    "module_attrs s ''object'' = None" "module_attrs s ''strawberry'' = None"
    "module_attrs s ''setattr'' = None" "module_attrs s ''sys'' = None"
    "module_attrs s ''__name__'' = None"
  using assms by (simp_all add: globals_intact_def rebound_iff used_globals_def)

lemma cci_Inr_iff:
  "createCustomInput s f n k = Inr (t, s1) \<longleftrightarrow>
     module_attrs s ''inputTypeGQLMapper'' = None \<and> module_attrs s ''print'' = None
     \<and> (case inputTypeGQLMapper s k of
           Some r \<Rightarrow> module_attrs s ''logging'' = None \<and> t = KType r \<and> s1 = s
         | None \<Rightarrow>
             (case kind_name k of
                None \<Rightarrow> False
              | Some nm \<Rightarrow>
                  module_attrs s ''typing'' = None
                  \<and> (if nm = ''Annotated'' then t = k \<and> s1 = s
                      else module_attrs s ''logging'' = None \<and> module_attrs s ''type'' = None
                         \<and> module_attrs s ''strawberry'' = None
                         \<and> module_attrs s ''setattr'' = None
                         \<and> t = KType (ClassRef (next_id s) n)
                         \<and> s1 = s\<lparr>heap := (heap s)
                                      (next_id s :=
                                         new_operator_type (module_attrs s ''object'') f n k),
                                    next_id := Suc (next_id s)\<rparr>)))"
proof (cases "inputTypeGQLMapper s k")
  case None
  show ?thesis
  proof (cases "kind_name k")
    case n: None
    show ?thesis using None n by (simp add: createCustomInput_def rebound_iff)
  next
    case (Some nm)
    show ?thesis using None Some
      by (auto simp: createCustomInput_def rebound_iff alloc_def new_operator_type_def)
  qed
next
  case (Some r)
  then show ?thesis by (auto simp: createCustomInput_def rebound_iff)
qed

lemma cci_frame:
  assumes "createCustomInput s f n k = Inr (t, s1)"
  shows "inputTypeGQLMapper s1 = inputTypeGQLMapper s" "module_attrs s1 = module_attrs s"
    "next_id s \<le> next_id s1" "\<And>i. i < next_id s \<Longrightarrow> heap s1 i = heap s i"
    "kind_name t \<noteq> None"
  using assms unfolding cci_Inr_iff
  by (auto split: option.splits if_splits)

lemma cci_field_input:
  assumes "createCustomInput s f n k = Inr (t, s1)"
  shows "field_input s s1 (f, n, k) t"
  using assms unfolding cci_Inr_iff
  by (auto simp: field_input_def split: option.splits if_splits)

lemma cci_Inl_intact:
  assumes "globals_intact s"
  shows "createCustomInput s f n k = Inl e \<longleftrightarrow>
     e = AttributeError \<and> inputTypeGQLMapper s k = None \<and> kind_name k = None"
  using intact_names[OF assms]
  by (auto simp: createCustomInput_def rebound_iff alloc_def split: option.splits if_splits)

lemma ccis_Cons_Inr:
  assumes "createCustomInputs s ((f, n, k) # xs) = Inr (ts, s1)"
  obtains t s' ts' where "createCustomInput s f n k = Inr (t, s')"
    "createCustomInputs s' xs = Inr (ts', s1)" "ts = t # ts'"
proof (cases "createCustomInput s f n k")
  case (Inl e)
  then show ?thesis using assms by simp
next
  case (Inr p)
  obtain t s' where p: "p = (t, s')" by (cases p)
  show ?thesis
  proof (cases "createCustomInputs s' xs")
    case (Inl e)
    then show ?thesis using assms Inr p by simp
  next
    case r: (Inr q)
    obtain ts' s2 where q: "q = (ts', s2)" by (cases q)
    have "ts = t # ts'" "s2 = s1" using assms Inr p r q by simp_all
    then show ?thesis using that[of t s' ts'] Inr p r q by simp
  qed
qed

lemma ccis_frame:
  assumes "createCustomInputs s xs = Inr (ts, s1)"
  shows "inputTypeGQLMapper s1 = inputTypeGQLMapper s \<and> module_attrs s1 = module_attrs s
    \<and> next_id s \<le> next_id s1 \<and> (\<forall>i < next_id s. heap s1 i = heap s i)
    \<and> length ts = length xs \<and> (\<forall>t \<in> set ts. kind_name t \<noteq> None)"
  using assms
proof (induction xs arbitrary: s ts)
  case Nil
  then show ?case by simp
next
  case (Cons x xs)
  obtain f n k where x: "x = (f, n, k)" by (cases x)
  from Cons.prems[unfolded x] obtain t s' ts' where
    h: "createCustomInput s f n k = Inr (t, s')" and
    r: "createCustomInputs s' xs = Inr (ts', s1)" and ts: "ts = t # ts'"
    by (rule ccis_Cons_Inr)
  note fr = cci_frame[OF h]
  note ih = Cons.IH[OF r]
  have 1: "inputTypeGQLMapper s1 = inputTypeGQLMapper s" using fr(1) ih by simp
  have 2: "module_attrs s1 = module_attrs s" using fr(2) ih by simp
  have 3: "next_id s \<le> next_id s1" using fr(3) ih by simp
  have 4: "\<forall>i < next_id s. heap s1 i = heap s i"
  proof (intro allI impI)
    fix i assume i: "i < next_id s"
    then have "i < next_id s'" using fr(3) by simp
    then have "heap s1 i = heap s' i" using ih by simp
    then show "heap s1 i = heap s i" using fr(4)[OF i] by simp
  qed
  have 5: "length ts = length (x # xs)" using ih ts by simp
  have 6: "\<forall>t \<in> set ts. kind_name t \<noteq> None" using ih ts fr(5) by simp
  show ?case using 1 2 3 4 5 6 by blast
qed

lemma set_attrs_other:
  "(\<forall>r \<in> set rs. kind_name r \<noteq> Some n) \<Longrightarrow> set_attrs m rs n = m n"
  by (induction rs arbitrary: m) (auto split: option.splits)

lemma set_attrs_unique:
  "r \<in> set rs \<Longrightarrow> kind_name r = Some n \<Longrightarrow>
   (\<forall>r' \<in> set rs. kind_name r' = Some n \<longrightarrow> r' = r) \<Longrightarrow> set_attrs m rs n = Some r"
proof (induction rs arbitrary: m)
  case Nil
  then show ?case by simp
next
  case (Cons a rs)
  let ?m = "case kind_name a of None \<Rightarrow> m | Some n \<Rightarrow> m(n \<mapsto> a)"
  have step: "set_attrs m (a # rs) n = set_attrs ?m rs n" by simp
  show ?case
  proof (cases "r \<in> set rs")
    case True
    have u: "\<forall>r' \<in> set rs. kind_name r' = Some n \<longrightarrow> r' = r"
      using Cons.prems(3) by simp
    have "set_attrs ?m rs n = Some r"
      by (rule Cons.IH[OF True Cons.prems(2) u])
    then show ?thesis using step by simp
  next
    case False
    then have a: "a = r" using Cons.prems(1) by simp
    have "\<forall>r' \<in> set rs. kind_name r' \<noteq> Some n" using Cons.prems(3) False by auto
    then have "set_attrs ?m rs n = ?m n" by (rule set_attrs_other)
    also have "?m n = Some r" using a Cons.prems(2) by simp
    finally show ?thesis using step by simp
  qed
qed

lemma set_attrs_some:
  "r \<in> set rs \<Longrightarrow> kind_name r = Some n \<Longrightarrow>
   \<exists>r' \<in> set rs. set_attrs m rs n = Some r' \<and> kind_name r' = Some n"
proof (induction rs arbitrary: m r)
  case Nil
  then show ?case by simp
next
  case (Cons a rs)
  show ?case
  proof (cases "\<exists>r' \<in> set rs. kind_name r' = Some n")
    case True
    then obtain r' where "r' \<in> set rs" "kind_name r' = Some n" by blast
    from Cons.IH[OF this, of "case kind_name a of None \<Rightarrow> m | Some n \<Rightarrow> m(n \<mapsto> a)"]
    obtain r'' where r'': "r'' \<in> set rs" "kind_name r'' = Some n"
      "set_attrs (case kind_name a of None \<Rightarrow> m | Some n \<Rightarrow> m(n \<mapsto> a)) rs n = Some r''"
      by blast
    show ?thesis
    proof (rule bexI[of _ r''])
      show "set_attrs m (a # rs) n = Some r'' \<and> kind_name r'' = Some n" using r'' by simp
      show "r'' \<in> set (a # rs)" using r'' by simp
    qed
  next
    case False
    then have a: "a = r" using Cons.prems by auto
    have "\<forall>r' \<in> set rs. kind_name r' \<noteq> Some n" using False by auto
    then have "set_attrs (m(n \<mapsto> r)) rs n = (m(n \<mapsto> r)) n" by (rule set_attrs_other)
    then show ?thesis using a Cons.prems(2) by simp
  qed
qed

lemma update_fresh: "k \<notin> fst ` set d \<Longrightarrow> AList.update k v d = d @ [(k, v)]"
  by (induction d) auto

lemma dict_update_append:
  "distinct (map fst e) \<Longrightarrow> fst ` set e \<inter> fst ` set d = {} \<Longrightarrow> dict_update d e = d @ e"
proof (induction e arbitrary: d)
  case Nil
  then show ?case by (simp add: dict_update_def)
next
  case (Cons p e)
  obtain k v where p: "p = (k, v)" by (cases p)
  have k: "k \<notin> fst ` set d" using Cons.prems p by auto
  have "dict_update d (p # e) = dict_update (AList.update k v d) e"
    by (simp add: dict_update_def p)
  also have "\<dots> = dict_update (d @ [(k, v)]) e" using k by (simp add: update_fresh)
  also have "\<dots> = (d @ [(k, v)]) @ e"
  proof (rule Cons.IH)
    show "distinct (map fst e)" using Cons.prems by simp
    show "fst ` set e \<inter> fst ` set (d @ [(k, v)]) = {}" using Cons.prems p by auto
  qed
  finally show ?case using p by simp
qed

lemma map_of_dict_update:
  "distinct (map fst e) \<Longrightarrow> map_of (dict_update d e) = map_of d ++ map_of e"
proof (induction e arbitrary: d)
  case Nil
  then show ?case by (simp add: dict_update_def)
next
  case (Cons p e)
  obtain k v where p: "p = (k, v)" by (cases p)
  have "dict_update d (p # e) = dict_update (AList.update k v d) e"
    by (simp add: dict_update_def p)
  then have "map_of (dict_update d (p # e)) = map_of (AList.update k v d) ++ map_of e"
    using Cons by simp
  also have "\<dots> = (map_of d)(k \<mapsto> v) ++ map_of e" by (simp add: update_conv')
  also have "\<dots> = map_of d ++ map_of (p # e)"
  proof -
    have "k \<notin> dom (map_of e)" using Cons.prems p by (simp add: dom_map_of_conv_image_fst)
    then have e: "map_of e k = None" by blast
    show ?thesis unfolding p
    proof (rule ext)
      fix x
      show "((map_of d)(k \<mapsto> v) ++ map_of e) x = (map_of d ++ map_of ((k, v) # e)) x"
        using e by (cases "x = k") (simp_all add: map_add_def split: option.splits)
    qed
  qed
  finally show ?case .
qed

lemma zip3_map:
  "zip (map fst a) (zip (map g (map fst a)) (map snd a)) = map (\<lambda>(f, k). (f, g f, k)) a"
  by (induction a) auto

lemma field_input_mono:
  assumes "field_input s' s1 x t" "inputTypeGQLMapper s' = inputTypeGQLMapper s"
    "module_attrs s' = module_attrs s" "next_id s \<le> next_id s'"
  shows "field_input s s1 x t"
proof -
  obtain f n k where x: "x = (f, n, k)" by (cases x)
  show ?thesis
  proof (cases "inputTypeGQLMapper s k")
    case None
    then show ?thesis using assms x
      by (fastforce simp: field_input_def)
  next
    case (Some r)
    then show ?thesis using assms x by (simp add: field_input_def)
  qed
qed

lemma ccis_field_input:
  assumes "createCustomInputs s xs = Inr (ts, s1)"
  shows "list_all2 (field_input s s1) xs ts"
  using assms
proof (induction xs arbitrary: s ts)
  case Nil
  then show ?case by simp
next
  case (Cons x xs)
  obtain f n k where x: "x = (f, n, k)" by (cases x)
  from Cons.prems[unfolded x] obtain t s' ts' where
    h: "createCustomInput s f n k = Inr (t, s')" and
    r: "createCustomInputs s' xs = Inr (ts', s1)" and ts: "ts = t # ts'"
    by (rule ccis_Cons_Inr)
  note fr = cci_frame[OF h]
  have fr2: "next_id s' \<le> next_id s1" "\<forall>i < next_id s'. heap s1 i = heap s' i"
    using ccis_frame[OF r] by auto
  have hd: "field_input s s1 (f, n, k) t"
    using cci_field_input[OF h] fr fr2
    by (auto simp: field_input_def split: option.splits if_splits)
  have tl: "list_all2 (field_input s s1) xs ts'"
    using Cons.IH[OF r] fr(1,2,3)
    by (auto elim!: list_all2_mono intro: field_input_mono)
  show ?case using hd tl ts x by simp
qed

lemma ccis_Inl_intact:
  assumes "globals_intact s"
  shows "createCustomInputs s xs = Inl e \<longleftrightarrow>
     e = AttributeError \<and> (\<exists>(f, n, k) \<in> set xs. inputTypeGQLMapper s k = None \<and> kind_name k = None)"
  using assms
proof (induction xs arbitrary: s)
  case Nil
  then show ?case by simp
next
  case (Cons x xs)
  obtain f n k where x: "x = (f, n, k)" by (cases x)
  show ?case
  proof (cases "createCustomInput s f n k")
    case (Inl e')
    have e': "e' = AttributeError \<and> inputTypeGQLMapper s k = None \<and> kind_name k = None"
      using Inl by (simp add: cci_Inl_intact[OF Cons.prems])
    show ?thesis using x Inl e' by auto
  next
    case (Inr p)
    obtain t s1 where p: "p = (t, s1)" by (cases p)
    have m: "inputTypeGQLMapper s1 = inputTypeGQLMapper s"
      using Inr p cci_frame(1) by blast
    have g: "globals_intact s1"
      using Inr p cci_frame(2)[of s f n k t s1] Cons.prems
      by (simp add: globals_intact_def rebound_iff)
    have nf: "\<not> (inputTypeGQLMapper s k = None \<and> kind_name k = None)"
      using Inr cci_Inl_intact[OF Cons.prems, of f n k AttributeError] by auto
    show ?thesis
      using Inr p x Cons.IH[OF g] m nf by (auto split: sum.splits)
  qed
qed

lemma register_Inr:
  "register s rs = Inr s' \<Longrightarrow> s' = s\<lparr>module_attrs := set_attrs (module_attrs s) rs\<rparr>"
proof (induction rs arbitrary: s)
  case Nil
  then show ?case by simp
next
  case (Cons r rs)
  then obtain n where n: "kind_name r = Some n" by (cases "kind_name r") auto
  have nr: "\<not> rebound s [''setattr'']" using Cons.prems n by (auto split: if_splits)
  have "register (s\<lparr>module_attrs := (module_attrs s)(n \<mapsto> r)\<rparr>) rs = Inr s'"
    using Cons.prems n nr by simp
  then have "s' = (s\<lparr>module_attrs := (module_attrs s)(n \<mapsto> r)\<rparr>)
      \<lparr>module_attrs :=
         set_attrs (module_attrs (s\<lparr>module_attrs := (module_attrs s)(n \<mapsto> r)\<rparr>)) rs\<rparr>"
    by (rule Cons.IH)
  then show ?case by (simp add: n)
qed

lemma register_Inr_iff:
  "(\<exists>s'. register s rs = Inr s') \<longleftrightarrow>
     (\<forall>r \<in> set rs. kind_name r \<noteq> None)
     \<and> (rs \<noteq> [] \<longrightarrow> module_attrs s ''setattr'' = None)
     \<and> (\<forall>r \<in> set (butlast rs). kind_name r \<noteq> Some ''setattr'')"
proof (induction rs arbitrary: s)
  case Nil
  then show ?case by simp
next
  case (Cons r rs)
  show ?case
  proof (cases "kind_name r")
    case None
    then show ?thesis by auto
  next
    case (Some n)
    let ?s = "s\<lparr>module_attrs := (module_attrs s)(n \<mapsto> r)\<rparr>"
    have ih: "(\<exists>s'. register ?s rs = Inr s') \<longleftrightarrow>
       (\<forall>r \<in> set rs. kind_name r \<noteq> None)
       \<and> (rs \<noteq> [] \<longrightarrow> module_attrs ?s ''setattr'' = None)
       \<and> (\<forall>r \<in> set (butlast rs). kind_name r \<noteq> Some ''setattr'')"
      by (rule Cons.IH)
    show ?thesis
    proof (cases "module_attrs s ''setattr'' = None")
      case False
      then show ?thesis using Some by (simp add: rebound_iff)
    next
      case True
      have step: "register s (r # rs) = register ?s rs"
        using Some True by (simp add: rebound_iff)
      show ?thesis
      proof (cases "rs = []")
        case e: True
        then show ?thesis using Some True by (simp add: rebound_iff)
      next
        case ne: False
        have ms: "module_attrs ?s ''setattr'' = None \<longleftrightarrow> n \<noteq> ''setattr''"
          using True by simp
        show ?thesis unfolding step ih using Some True ne ms by auto
      qed
    qed
  qed
qed

lemma built_frame:
  "module_attrs (built c s1 ts) = module_attrs s1"
  "inputTypeGQLMapper (built c s1 ts) = inputTypeGQLMapper s1"
  "next_id (built c s1 ts) = Suc (Suc (Suc (next_id s1)))"
  by (simp_all add: built_def)

lemma createInputs_unfold:
  "createInputs s c =
     (if rebound s [''print'', ''zip''] then Inl GlobalRebound
      else case createCustomInputs s (field_specs c) of
        Inl e \<Rightarrow> Inl e
      | Inr (ts, s1) \<Rightarrow>
          if rebound s1 [''typing'', ''type'', ''strawberry'', ''setattr'']
          then Inl GlobalRebound
          else if rebound (built c s1 ts) [''sys'', ''__name__''] then Inl GlobalRebound
          else (case register (built c s1 ts) (produced c s1 ts) of
             Inl e \<Rightarrow> Inl e
           | Inr s5 \<Rightarrow>
               if rebound s5 [''inputTypeGQLMapper''] then Inl GlobalRebound
               else Inr (where_ref c s1,
                    s5\<lparr>inputTypeGQLMapper :=
                          (inputTypeGQLMapper s5)(KType (where_ref c s1) \<mapsto> where_ref c s1)\<rparr>)))"
  unfolding createInputs_def Let_def zip3_map field_specs_def fields_dict_def alloc_def
    built_def produced_def or_ref_def and_ref_def where_ref_def
  by (simp add: createOr_def createAnd_def createWhereOp_def Let_def rebound_iff
      split: sum.splits prod.splits)

text \<open>What a successful call has found and done.\<close>

lemma createInputs_Inr:
  assumes "createInputs s c = Inr (w, s')"
  obtains ts s1 where
    "createCustomInputs s (field_specs c) = Inr (ts, s1)"
    "w = where_ref c s1"
    "s' = (built c s1 ts)
            \<lparr>module_attrs := set_attrs (module_attrs s) (produced c s1 ts),
             inputTypeGQLMapper := (inputTypeGQLMapper s)(KType w \<mapsto> w)\<rparr>"
    "\<not> rebound s [''print'', ''zip'', ''typing'', ''type'', ''strawberry'', ''setattr'',
                     ''sys'', ''__name__'', ''inputTypeGQLMapper'']"
    "\<forall>r \<in> set (butlast (produced c s1 ts)). kind_name r \<noteq> Some ''setattr''"
    "\<forall>r \<in> set (produced c s1 ts). kind_name r \<noteq> Some ''inputTypeGQLMapper''"
proof -
  have a: "\<not> rebound s [''print'', ''zip'']"
    using assms by (auto simp: createInputs_unfold split: if_splits)
  obtain ts s1 where r: "createCustomInputs s (field_specs c) = Inr (ts, s1)"
    using assms a by (cases "createCustomInputs s (field_specs c)")
      (auto simp: createInputs_unfold)
  note fr = ccis_frame[OF r]
  have ma: "module_attrs (built c s1 ts) = module_attrs s" using fr by (simp add: built_frame)
  have b: "\<not> rebound s1 [''typing'', ''type'', ''strawberry'', ''setattr'']"
    using assms a r by (auto simp: createInputs_unfold split: if_splits)
  have c: "\<not> rebound (built c s1 ts) [''sys'', ''__name__'']"
    using assms a r b by (auto simp: createInputs_unfold split: if_splits)
  obtain s5 where reg: "register (built c s1 ts) (produced c s1 ts) = Inr s5"
    using assms a r b c by (cases "register (built c s1 ts) (produced c s1 ts)")
      (auto simp: createInputs_unfold)
  have d: "\<not> rebound s5 [''inputTypeGQLMapper'']"
    using assms a r b c reg by (auto simp: createInputs_unfold split: if_splits)
  have res: "w = where_ref c s1"
    "s' = s5\<lparr>inputTypeGQLMapper :=
               (inputTypeGQLMapper s5)(KType (where_ref c s1) \<mapsto> where_ref c s1)\<rparr>"
    using assms a r b c reg d by (auto simp: createInputs_unfold)
  have s5: "s5 = (built c s1 ts)\<lparr>module_attrs := set_attrs (module_attrs s) (produced c s1 ts)\<rparr>"
    using register_Inr[OF reg] ma by simp
  have s': "s' = (built c s1 ts)
            \<lparr>module_attrs := set_attrs (module_attrs s) (produced c s1 ts),
             inputTypeGQLMapper := (inputTypeGQLMapper s)(KType w \<mapsto> w)\<rparr>"
    using res s5 fr by (simp add: built_frame)
  have reg_ok: "(\<forall>r \<in> set (produced c s1 ts). kind_name r \<noteq> None)
     \<and> (produced c s1 ts \<noteq> [] \<longrightarrow> module_attrs (built c s1 ts) ''setattr'' = None)
     \<and> (\<forall>r \<in> set (butlast (produced c s1 ts)). kind_name r \<noteq> Some ''setattr'')"
    using reg register_Inr_iff[of "built c s1 ts" "produced c s1 ts"] by blast
  have g: "\<not> rebound s [''print'', ''zip'', ''typing'', ''type'', ''strawberry'', ''setattr'',
                     ''sys'', ''__name__'', ''inputTypeGQLMapper'']"
  proof -
    have m5: "module_attrs s5 ''inputTypeGQLMapper'' = None" using d by (simp add: rebound_iff)
    have "module_attrs s ''inputTypeGQLMapper'' = None"
    proof (rule ccontr)
      assume "module_attrs s ''inputTypeGQLMapper'' \<noteq> None"
      then have "createCustomInputs s (field_specs c) \<noteq> Inr (ts, s1) \<or> field_specs c = []"
        by (cases "field_specs c") (auto simp: cci_Inr_iff split: sum.splits)
      then have e: "field_specs c = []" using r by simp
      then have "ts = []" using fr by simp
      then have "set_attrs (module_attrs s) (produced c s1 ts) ''inputTypeGQLMapper''
                  \<noteq> None \<or> (\<exists>r \<in> set (produced c s1 ts). kind_name r = Some ''inputTypeGQLMapper'')"
        using set_attrs_other[of "produced c s1 ts" "''inputTypeGQLMapper''" "module_attrs s"]
          \<open>module_attrs s ''inputTypeGQLMapper'' \<noteq> None\<close> by auto
      moreover have "\<forall>r \<in> set (produced c s1 ts). kind_name r = Some ''inputTypeGQLMapper'' \<longrightarrow>
          set_attrs (module_attrs s) (produced c s1 ts) ''inputTypeGQLMapper'' \<noteq> None"
        using set_attrs_some[of _ "produced c s1 ts" "''inputTypeGQLMapper''" "module_attrs s"]
        by fastforce
      ultimately show False using m5 s5 by auto
    qed
    then show ?thesis using a b c fr ma by (simp add: rebound_iff)
  qed
  have h: "\<forall>r \<in> set (produced c s1 ts). kind_name r \<noteq> Some ''inputTypeGQLMapper''"
  proof
    fix x assume x: "x \<in> set (produced c s1 ts)"
    show "kind_name x \<noteq> Some ''inputTypeGQLMapper''"
    proof
      assume n: "kind_name x = Some ''inputTypeGQLMapper''"
      from set_attrs_some[OF x n, of "module_attrs s"]
      have "set_attrs (module_attrs s) (produced c s1 ts) ''inputTypeGQLMapper'' \<noteq> None"
        by auto
      then show False using d s5 by (simp add: rebound_iff)
    qed
  qed
  show ?thesis using that[OF r res(1) s' g] reg_ok h by blast
qed

text \<open>When a call succeeds.\<close>

lemma createInputs_ok:
  assumes "createCustomInputs s (field_specs c) = Inr (ts, s1)"
    and "\<not> rebound s [''print'', ''zip'', ''typing'', ''type'', ''strawberry'', ''setattr'',
                     ''sys'', ''__name__'', ''inputTypeGQLMapper'']"
    and "\<forall>r \<in> set (butlast (produced c s1 ts)). kind_name r \<noteq> Some ''setattr''"
    and "\<forall>r \<in> set (produced c s1 ts). kind_name r \<noteq> Some ''inputTypeGQLMapper''"
  shows "createInputs s c =
     Inr (where_ref c s1,
          (built c s1 ts)
            \<lparr>module_attrs := set_attrs (module_attrs s) (produced c s1 ts),
             inputTypeGQLMapper := (inputTypeGQLMapper s)(KType (where_ref c s1) \<mapsto> where_ref c s1)\<rparr>)"
proof -
  note fr = ccis_frame[OF assms(1)]
  have ma: "module_attrs (built c s1 ts) = module_attrs s" using fr by (simp add: built_frame)
  have g: "module_attrs s ''print'' = None" "module_attrs s ''zip'' = None"
    "module_attrs s ''typing'' = None" "module_attrs s ''type'' = None"
    "module_attrs s ''strawberry'' = None" "module_attrs s ''setattr'' = None"
    "module_attrs s ''sys'' = None" "module_attrs s ''__name__'' = None"
    "module_attrs s ''inputTypeGQLMapper'' = None"
    using assms(2) by (simp_all add: rebound_iff)
  have names: "\<forall>t \<in> set (produced c s1 ts). kind_name t \<noteq> None"
    using fr by (simp add: produced_def)
  have "\<exists>s5. register (built c s1 ts) (produced c s1 ts) = Inr s5"
    unfolding register_Inr_iff using names assms(3) g ma by simp
  then obtain s5 where reg: "register (built c s1 ts) (produced c s1 ts) = Inr s5" by blast
  have s5: "s5 = (built c s1 ts)\<lparr>module_attrs := set_attrs (module_attrs s) (produced c s1 ts)\<rparr>"
    using register_Inr[OF reg] ma by simp
  have "set_attrs (module_attrs s) (produced c s1 ts) ''inputTypeGQLMapper''
          = module_attrs s ''inputTypeGQLMapper''"
    by (rule set_attrs_other) (use assms(4) in blast)
  then have d: "\<not> rebound s5 [''inputTypeGQLMapper'']"
    using g s5 by (simp add: rebound_iff)
  have a: "\<not> rebound s [''print'', ''zip'']" using g by (simp add: rebound_iff)
  have b: "\<not> rebound s1 [''typing'', ''type'', ''strawberry'', ''setattr'']"
    using g fr by (simp add: rebound_iff)
  have c: "\<not> rebound (built c s1 ts) [''sys'', ''__name__'']"
    using g ma by (simp add: rebound_iff)
  have "createInputs s c = Inr (where_ref c s1,
                    s5\<lparr>inputTypeGQLMapper :=
                          (inputTypeGQLMapper s5)(KType (where_ref c s1) \<mapsto> where_ref c s1)\<rparr>)"
    using a b c d reg assms(1) by (simp add: createInputs_unfold)
  then show ?thesis using s5 fr by (simp add: built_frame)
qed

lemma wf_init: "wf_state init_state"
  by (auto simp: wf_state_def init_state_def split: if_splits)

lemma wf_step:
  assumes "wf_state s" "createInputs s c = Inr (w, s')"
  shows "wf_state s'"
proof -
  from assms(2) obtain ts s1 where
    r: "createCustomInputs s (field_specs c) = Inr (ts, s1)" and
    w: "w = where_ref c s1" and
    s': "s' = (built c s1 ts)
            \<lparr>module_attrs := set_attrs (module_attrs s) (produced c s1 ts),
             inputTypeGQLMapper := (inputTypeGQLMapper s)(KType w \<mapsto> w)\<rparr>"
    by (rule createInputs_Inr)
  have le: "next_id s \<le> next_id s1" using ccis_frame[OF r] by simp
  have n: "next_id s' = Suc (Suc (Suc (next_id s1)))" by (simp add: s' built_frame)
  show ?thesis unfolding wf_state_def
  proof (intro allI impI)
    fix k r assume kr: "inputTypeGQLMapper s' k = Some r"
    show "k \<in> {KStr, KInt, KBool, KDatetime, KUuid} \<or> (k = KType r \<and> ref_id r < next_id s')"
    proof (cases "k = KType w")
      case True
      then have "r = w" using kr by (simp add: s')
      then show ?thesis using True n w by (simp add: where_ref_def)
    next
      case False
      then have "inputTypeGQLMapper s k = Some r" using kr by (simp add: s')
      then have "k \<in> {KStr, KInt, KBool, KDatetime, KUuid} \<or> (k = KType r \<and> ref_id r < next_id s)"
        using assms(1) unfolding wf_state_def by blast
      then show ?thesis using le n by auto
    qed
  qed
qed

lemma reachable_wf: "reachable s \<Longrightarrow> wf_state s"
  by (induction rule: reachable.induct) (auto intro: wf_init wf_step)


lemma createInputs_fresh:
  assumes "createInputs s c = Inr (w, s')"
  shows "next_id s \<le> ref_id w" "ref_name w = cls_name c" "inputTypeGQLMapper s' (KType w) = Some w"
proof -
  from assms obtain ts s1 where
    r: "createCustomInputs s (field_specs c) = Inr (ts, s1)" and
    w: "w = where_ref c s1" and
    s': "s' = (built c s1 ts)
            \<lparr>module_attrs := set_attrs (module_attrs s) (produced c s1 ts),
             inputTypeGQLMapper := (inputTypeGQLMapper s)(KType w \<mapsto> w)\<rparr>"
    by (rule createInputs_Inr)
  have le: "next_id s \<le> next_id s1" using ccis_frame[OF r] by simp
  show "next_id s \<le> ref_id w" using le w by (simp add: where_ref_def)
  show "ref_name w = cls_name c" using w by (simp add: where_ref_def)
  show "inputTypeGQLMapper s' (KType w) = Some w" by (simp add: s')
qed

lemma field_input_built:
  assumes "field_input s s1 x t"
  shows "field_input s ((built c s1 ts)\<lparr>module_attrs := m, inputTypeGQLMapper := g\<rparr>) x t"
proof -
  obtain f n k where x: "x = (f, n, k)" by (cases x)
  show ?thesis
  proof (cases "inputTypeGQLMapper s k")
    case (Some r)
    then show ?thesis using assms x by (simp add: field_input_def)
  next
    case None
    show ?thesis
    proof (cases "kind_name k = Some ''Annotated''")
      case True
      then show ?thesis using assms x None by (simp add: field_input_def)
    next
      case False
      then obtain i where i: "next_id s \<le> i" "i < next_id s1" "t = KType (ClassRef i n)"
        "heap s1 i = new_operator_type (module_attrs s ''object'') f n k"
        using assms x None by (auto simp: field_input_def)
      have "heap (built c s1 ts) i = heap s1 i" using i(2) by (simp add: built_def)
      then show ?thesis using i x None False
        by (auto simp: field_input_def built_def intro!: exI[of _ i])
    qed
  qed
qed

lemma field_input_name:
  assumes "list_all2 (field_input s s1) (field_specs c) ts" "t \<in> set ts" "kind_name t = Some n"
  shows "(\<exists>(f, k) \<in> set (cls_annotations c). \<exists>r. inputTypeGQLMapper s k = Some r \<and> n = ref_name r)
       \<or> n = ''Annotated''
       \<or> (\<exists>(f, k) \<in> set (cls_annotations c). n = cls_name c @ ''_'' @ f)"
proof -
  from assms(2) obtain j where j: "j < length ts" "t = ts ! j" by (auto simp: in_set_conv_nth)
  have len: "length (field_specs c) = length ts" using assms(1) by (rule list_all2_lengthD)
  have fi: "field_input s s1 (field_specs c ! j) t"
    using assms(1) j by (simp add: list_all2_conv_all_nth)
  have jl: "j < length (cls_annotations c)" using len j by (simp add: field_specs_def)
  obtain f k where fk: "cls_annotations c ! j = (f, k)" by (cases "cls_annotations c ! j")
  have mem: "(f, k) \<in> set (cls_annotations c)" using jl fk by (metis nth_mem)
  have spec: "field_specs c ! j = (f, cls_name c @ ''_'' @ f, k)"
    using jl fk by (simp add: field_specs_def)
  show ?thesis
  proof (cases "inputTypeGQLMapper s k")
    case (Some r)
    then have "t = KType r" using fi spec by (simp add: field_input_def)
    then have "n = ref_name r" using assms(3) by simp
    then show ?thesis using mem Some by blast
  next
    case None
    show ?thesis
    proof (cases "kind_name k = Some ''Annotated''")
      case True
      then have "t = k" using fi spec None by (simp add: field_input_def)
      then show ?thesis using True assms(3) by simp
    next
      case False
      then obtain i where "t = KType (ClassRef i (cls_name c @ ''_'' @ f))"
        using fi spec None by (auto simp: field_input_def)
      then have "n = cls_name c @ ''_'' @ f" using assms(3) by simp
      then show ?thesis using mem by blast
    qed
  qed
qed

lemma createInputs_fields:
  assumes "createInputs s c = Inr (w, s')"
  obtains ts s1 where
    "createCustomInputs s (field_specs c) = Inr (ts, s1)"
    "w = where_ref c s1"
    "s' = (built c s1 ts)
            \<lparr>module_attrs := set_attrs (module_attrs s) (produced c s1 ts),
             inputTypeGQLMapper := (inputTypeGQLMapper s)(KType w \<mapsto> w)\<rparr>"
    "list_all2 (field_input s s') (field_specs c) ts"
    "length ts = length (cls_annotations c)"
    "next_id s \<le> next_id s1"
proof -
  from assms obtain ts s1 where
    r: "createCustomInputs s (field_specs c) = Inr (ts, s1)" and
    w: "w = where_ref c s1" and
    s': "s' = (built c s1 ts)
            \<lparr>module_attrs := set_attrs (module_attrs s) (produced c s1 ts),
             inputTypeGQLMapper := (inputTypeGQLMapper s)(KType w \<mapsto> w)\<rparr>"
    by (rule createInputs_Inr)
  have "list_all2 (field_input s s1) (field_specs c) ts" by (rule ccis_field_input[OF r])
  then have fi: "list_all2 (field_input s s') (field_specs c) ts"
    unfolding s' by (rule list_all2_mono) (rule field_input_built)
  have len: "length ts = length (cls_annotations c)"
    using ccis_frame[OF r] by (simp add: field_specs_def)
  have le: "next_id s \<le> next_id s1" using ccis_frame[OF r] by simp
  show ?thesis using that[OF r w s' fi len le] .
qed

lemma name_neq: "n @ ''_'' @ f \<noteq> n" "n @ ''_and'' \<noteq> n" "n @ ''_or'' \<noteq> n"
  by simp_all

lemma fields_dict_zip:
  assumes "distinct (map fst (cls_annotations c))" "length ts = length (cls_annotations c)"
  shows "fields_dict c ts = zip (map fst (cls_annotations c)) (map (TOptional \<circ> TKind) ts)"
proof -
  have "map fst (zip (map fst (cls_annotations c)) (map (TOptional \<circ> TKind) ts))
          = map fst (cls_annotations c)"
    using assms(2) by simp
  then have "distinct (map fst (zip (map fst (cls_annotations c)) (map (TOptional \<circ> TKind) ts)))"
    using assms(1) by simp
  then have "dict_update [] (zip (map fst (cls_annotations c)) (map (TOptional \<circ> TKind) ts))
          = [] @ zip (map fst (cls_annotations c)) (map (TOptional \<circ> TKind) ts)"
    by (rule dict_update_append) simp
  then show ?thesis by (simp add: fields_dict_def)
qed

lemma fields_dict_keys:
  assumes "distinct (map fst (cls_annotations c))" "length ts = length (cls_annotations c)"
  shows "map fst (fields_dict c ts) = map fst (cls_annotations c)"
  using assms by (simp add: fields_dict_zip)

lemma combinators_then_fields:
  assumes "distinct (map fst (cls_annotations c))" "length ts = length (cls_annotations c)"
    "fst ` set d \<inter> fst ` set (cls_annotations c) = {}"
  shows "dict_update d (fields_dict c ts) = d @ fields_dict c ts"
proof (rule dict_update_append)
  show "distinct (map fst (fields_dict c ts))"
    using assms(1,2) by (simp add: fields_dict_keys)
  have "fst ` set (fields_dict c ts) = fst ` set (cls_annotations c)"
    using fields_dict_keys[OF assms(1,2)] by (metis set_map)
  then show "fst ` set (fields_dict c ts) \<inter> fst ` set d = {}" using assms(3) by blast
qed

lemma wf_lazy: "wf_state s \<Longrightarrow> inputTypeGQLMapper s (KLazy n m) = None"
  unfolding wf_state_def by (cases "inputTypeGQLMapper s (KLazy n m)") auto

lemma wf_self: "wf_state s \<Longrightarrow> inputTypeGQLMapper s (KType r) \<noteq> None \<Longrightarrow>
    inputTypeGQLMapper s (KType r) = Some r"
  unfolding wf_state_def by (cases "inputTypeGQLMapper s (KType r)") auto

lemma map_of_fields:
  assumes "distinct (map fst (cls_annotations c))" "length ts = length (cls_annotations c)"
    "j < length ts" "cls_annotations c ! j = (f, k)"
  shows "map_of (dict_update d (fields_dict c ts)) f = Some (TOptional (TKind (ts ! j)))"
proof -
  let ?ks = "map fst (cls_annotations c)" and ?vs = "map (TOptional \<circ> TKind) ts"
  have fz: "fields_dict c ts = zip ?ks ?vs" by (rule fields_dict_zip[OF assms(1,2)])
  have dk: "distinct (map fst (fields_dict c ts))"
    using assms(1,2) by (simp add: fields_dict_keys)
  have "map_of (zip ?ks ?vs) (?ks ! j) = Some (?vs ! j)"
    by (rule map_of_zip_nth) (use assms in simp_all)
  then have "map_of (fields_dict c ts) f = Some (TOptional (TKind (ts ! j)))"
    using assms(2,3,4) by (simp add: fz)
  then show ?thesis by (simp add: map_of_dict_update[OF dk])
qed

lemma new_operator_type_name: "ty_name (new_operator_type b f n k) = n"
  by (simp add: new_operator_type_def)

lemma built_heap:
  "heap (built c s1 ts) (next_id s1) =
     createOr (module_attrs s1 ''object'') (cls_name c) (cls_name c @ ''_or'')
       (cls_name c @ ''_and'') (fields_dict c ts)"
  "heap (built c s1 ts) (Suc (next_id s1)) =
     createAnd (module_attrs s1 ''object'') (cls_name c) (cls_name c @ ''_and'')
       (cls_name c @ ''_or'') (fields_dict c ts)"
  "heap (built c s1 ts) (Suc (Suc (next_id s1))) =
     createWhereOp (module_attrs s1 ''object'') (cls_name c) (cls_name c)
       (or_ref c s1) (and_ref c s1) (fields_dict c ts)"
  by (simp_all add: built_def)

lemma ccis_member:
  assumes "createCustomInputs s xs = Inr (ts, s1)" "(f, n, k) \<in> set xs"
  shows "\<exists>sj t sj'. createCustomInput sj f n k = Inr (t, sj')
           \<and> inputTypeGQLMapper sj = inputTypeGQLMapper s \<and> module_attrs sj = module_attrs s"
  using assms
proof (induction xs arbitrary: s ts)
  case Nil
  then show ?case by simp
next
  case (Cons x xs)
  obtain f' n' k' where x: "x = (f', n', k')" by (cases x)
  from Cons.prems(1)[unfolded x] obtain t s' ts' where
    h: "createCustomInput s f' n' k' = Inr (t, s')" and
    r: "createCustomInputs s' xs = Inr (ts', s1)" and ts: "ts = t # ts'"
    by (rule ccis_Cons_Inr)
  show ?case
  proof (cases "(f, n, k) = x")
    case True
    then show ?thesis using h x by blast
  next
    case False
    then have "(f, n, k) \<in> set xs" using Cons.prems(2) by simp
    from Cons.IH[OF r this] obtain sj t' sj' where
      "createCustomInput sj f n k = Inr (t', sj')"
      "inputTypeGQLMapper sj = inputTypeGQLMapper s'" "module_attrs sj = module_attrs s'"
      by blast
    then show ?thesis using cci_frame(1,2)[OF h] by metis
  qed
qed

lemma cci_passthrough:
  assumes "createCustomInput sj f n k = Inr (t, sj')"
    and "inputTypeGQLMapper sj = inputTypeGQLMapper s" "module_attrs sj = module_attrs s"
    and "inputTypeGQLMapper s k \<noteq> None \<or> kind_name k = Some ''Annotated''"
  shows "createCustomInput s f n k = Inr (t, s)"
  using assms unfolding cci_Inr_iff
  by (auto split: option.splits if_splits)

text \<open>The input types do not depend on what the module's names are bound to, as long as
  the globals are intact.\<close>

lemma ccis_indep:
  assumes "createCustomInputs s xs = Inr (ts, s1)"
    and "inputTypeGQLMapper s0 = inputTypeGQLMapper s" "next_id s0 = next_id s"
    and "globals_intact s0"
  shows "\<exists>s1'. createCustomInputs s0 xs = Inr (ts, s1') \<and> next_id s1' = next_id s1"
  using assms
proof (induction xs arbitrary: s s0 ts)
  case Nil
  then show ?case by simp
next
  case (Cons x xs)
  obtain f n k where x: "x = (f, n, k)" by (cases x)
  from Cons.prems(1)[unfolded x] obtain t s' ts' where
    h: "createCustomInput s f n k = Inr (t, s')" and
    r: "createCustomInputs s' xs = Inr (ts', s1)" and ts: "ts = t # ts'"
    by (rule ccis_Cons_Inr)
  note g = intact_names[OF Cons.prems(4)]
  obtain s0' where h0: "createCustomInput s0 f n k = Inr (t, s0')"
    and m0: "inputTypeGQLMapper s0' = inputTypeGQLMapper s'" and n0: "next_id s0' = next_id s'"
    and a0: "module_attrs s0' = module_attrs s0"
  proof (cases "inputTypeGQLMapper s k")
    case (Some r')
    have "createCustomInput s0 f n k = Inr (t, s0)" "s' = s"
      using h Some Cons.prems(2) g unfolding cci_Inr_iff by auto
    then show ?thesis using that[of s0] Cons.prems(2,3) by simp
  next
    case None
    obtain nm where nm: "kind_name k = Some nm"
      using h None unfolding cci_Inr_iff by (cases "kind_name k") auto
    show ?thesis
    proof (cases "nm = ''Annotated''")
      case True
      have "createCustomInput s0 f n k = Inr (t, s0)" "s' = s"
        using h None nm True Cons.prems(2) g unfolding cci_Inr_iff by auto
      then show ?thesis using that[of s0] Cons.prems(2,3) by simp
    next
      case False
      let ?s0' = "s0\<lparr>heap := (heap s0)
                      (next_id s0 := new_operator_type (module_attrs s0 ''object'') f n k),
                    next_id := Suc (next_id s0)\<rparr>"
      have t: "t = KType (ClassRef (next_id s) n)"
        and s': "s' = s\<lparr>heap := (heap s)
                      (next_id s := new_operator_type (module_attrs s ''object'') f n k),
                    next_id := Suc (next_id s)\<rparr>"
        using h None nm False unfolding cci_Inr_iff by auto
      have "createCustomInput s0 f n k = Inr (t, ?s0')"
        using None nm False Cons.prems(2,3) g t unfolding cci_Inr_iff by simp
      then show ?thesis using that[of ?s0'] Cons.prems(2,3) s' by simp
    qed
  qed
  have g0: "globals_intact s0'"
    using Cons.prems(4) a0 by (simp add: globals_intact_def rebound_iff)
  from Cons.IH[OF r m0 n0 g0] obtain s1' where
    "createCustomInputs s0' xs = Inr (ts', s1')" "next_id s1' = next_id s1" by blast
  then show ?case using h0 ts x by simp
qed

lemma no_underscore_names:
  "n @ ''_'' @ f \<noteq> ''setattr''" "n @ ''_'' @ f \<noteq> ''inputTypeGQLMapper''"
  "n @ ''_and'' \<noteq> ''setattr''" "n @ ''_and'' \<noteq> ''inputTypeGQLMapper''"
  "n @ ''_or'' \<noteq> ''setattr''" "n @ ''_or'' \<noteq> ''inputTypeGQLMapper''"
proof -
  have u: "\<And>x y z. CHR ''_'' \<notin> set z \<Longrightarrow> x @ CHR ''_'' # y \<noteq> z"
    by (metis in_set_conv_decomp)
  show "n @ ''_'' @ f \<noteq> ''setattr''" by (simp add: u)
  show "n @ ''_'' @ f \<noteq> ''inputTypeGQLMapper''" by (simp add: u)
  show "n @ ''_and'' \<noteq> ''setattr''" by (simp add: u)
  show "n @ ''_and'' \<noteq> ''inputTypeGQLMapper''" by (simp add: u)
  show "n @ ''_or'' \<noteq> ''setattr''" by (simp add: u)
  show "n @ ''_or'' \<noteq> ''inputTypeGQLMapper''" by (simp add: u)
qed

lemmas eval_defs = createInputs_def createCustomInput_def alloc_def dict_update_def
  createOr_def createAnd_def createWhereOp_def init_state_def init_heap_def Let_def
  rebound_def new_operator_type_name

subsection \<open>Operator slots of the scalar filters\<close>

text \<open>
  Claim C2, as the code has it. The filters for \<open>str\<close>, \<open>datetime\<close> and \<open>int\<close> and every
  operator type that \<open>createCustomInput\<close> builds expose the five slots \<open>_eq\<close>, \<open>_le\<close>,
  \<open>_lt\<close>, \<open>_ge\<close>, \<open>_gt\<close>; the string filter adds \<open>_like\<close>, \<open>_ilike\<close>, \<open>_startswith\<close>,
  \<open>_endswith\<close>; the integer filter adds \<open>_in\<close>. The boolean filter exposes \<open>_eq\<close> only
  and the unique-identifier filter \<open>_eq\<close> and \<open>_in\<close> only. Every slot is optional.
\<close>

theorem scalar_filter_slots:
  "map fst (ty_annotations StrFilter) =
     [''_eq'', ''_le'', ''_lt'', ''_ge'', ''_gt'',
      ''_like'', ''_ilike'', ''_startswith'', ''_endswith'']
   \<and> map fst (ty_annotations DatetimeFilter) = [''_eq'', ''_le'', ''_lt'', ''_ge'', ''_gt'']
   \<and> map fst (ty_annotations IntFilter) = [''_eq'', ''_le'', ''_lt'', ''_ge'', ''_gt'', ''_in'']
   \<and> map fst (ty_annotations (new_operator_type base field name baseType)) =
         [''_eq'', ''_le'', ''_lt'', ''_ge'', ''_gt'']
   \<and> map fst (ty_annotations BoolFilter) = [''_eq'']
   \<and> map fst (ty_annotations UuidFilter) = [''_eq'', ''_in'']
   \<and> list_all (\<lambda>(op, t). case t of TOptional _ \<Rightarrow> True | _ \<Rightarrow> False)
         (ty_annotations StrFilter @ ty_annotations DatetimeFilter @ ty_annotations IntFilter
            @ ty_annotations BoolFilter @ ty_annotations UuidFilter
            @ ty_annotations (new_operator_type base field name baseType))"
  by (simp add: filter_defs)

text \<open>
  The claim as stated fails at the boolean kind: the filter registered for \<open>bool\<close> has no
  slot \<open>_lt\<close>.
\<close>

theorem bool_filter_counterexample:
  "inputTypeGQLMapper init_state KBool = Some (ClassRef 3 ''BoolFilter'')
   \<and> heap init_state 3 = BoolFilter
   \<and> ''_lt'' \<notin> fst ` set (ty_annotations BoolFilter)"
  by (simp add: init_state_def init_heap_def filter_defs)

subsection \<open>Reuse of registered operator types\<close>




subsection \<open>Nested filter references\<close>

text \<open>
  Claim C4. In a reachable state, a field whose kind is a lazy reference, or a WhereType
  that \<open>createInputs\<close> has registered, gets that kind itself as its input type: the request
  returns the kind and creates nothing, and in the WhereType, the AndType and the OrType
  (the two classes created just before the WhereType) the field has the type
  \<open>Optional\<close> of the kind.
\<close>

theorem nested_filter_used_as_is:
  assumes "reachable s"
    and "createInputs s c = Inr (w, s')"
    and "distinct (map fst (cls_annotations c))"
    and "(f, k) \<in> set (cls_annotations c)"
    and "(\<exists>n m. k = KLazy n m) \<or> (\<exists>r. k = KType r \<and> inputTypeGQLMapper s k \<noteq> None)"
  shows "createCustomInput s f (cls_name c @ ''_'' @ f) k = Inr (k, s)
       \<and> map_of (ty_annotations (heap s' (ref_id w))) f = Some (TOptional (TKind k))
       \<and> map_of (ty_annotations (heap s' (ref_id w - 1))) f = Some (TOptional (TKind k))
       \<and> map_of (ty_annotations (heap s' (ref_id w - 2))) f = Some (TOptional (TKind k))"
proof -
  note wf = reachable_wf[OF assms(1)]
  from assms(2) obtain ts s1 where
    r: "createCustomInputs s (field_specs c) = Inr (ts, s1)" and
    w: "w = where_ref c s1" and
    s': "s' = (built c s1 ts)
            \<lparr>module_attrs := set_attrs (module_attrs s) (produced c s1 ts),
             inputTypeGQLMapper := (inputTypeGQLMapper s)(KType w \<mapsto> w)\<rparr>" and
    fi: "list_all2 (field_input s s') (field_specs c) ts" and
    len: "length ts = length (cls_annotations c)"
    by (rule createInputs_fields)
  from assms(4) obtain j where j: "j < length (cls_annotations c)" "cls_annotations c ! j = (f, k)"
    by (auto simp: in_set_conv_nth)
  have jt: "j < length ts" using j len by simp
  have "field_input s s' (field_specs c ! j) (ts ! j)"
    using fi jt by (simp add: list_all2_conv_all_nth)
  then have fij: "field_input s s' (f, cls_name c @ ''_'' @ f, k) (ts ! j)"
    using j by (simp add: field_specs_def)
  have tj: "ts ! j = k"
    using assms(5)
  proof
    assume "\<exists>n m. k = KLazy n m"
    then obtain n m where k: "k = KLazy n m" by blast
    show ?thesis using fij wf_lazy[OF wf, of n m] k by (simp add: field_input_def)
  next
    assume "\<exists>r. k = KType r \<and> inputTypeGQLMapper s k \<noteq> None"
    then obtain r where k: "k = KType r" "inputTypeGQLMapper s (KType r) \<noteq> None" by blast
    show ?thesis using fij wf_self[OF wf k(2)] k(1) by (simp add: field_input_def)
  qed
  have mem: "(f, cls_name c @ ''_'' @ f, k) \<in> set (field_specs c)"
    using assms(4) by (force simp: field_specs_def)
  have pass: "inputTypeGQLMapper s k \<noteq> None \<or> kind_name k = Some ''Annotated''"
    using assms(5) by auto
  from ccis_member[OF r mem] obtain sj t sj' where
    "createCustomInput sj f (cls_name c @ ''_'' @ f) k = Inr (t, sj')"
    "inputTypeGQLMapper sj = inputTypeGQLMapper s" "module_attrs sj = module_attrs s"
    by blast
  then have run: "createCustomInput s f (cls_name c @ ''_'' @ f) k = Inr (t, s)"
    using pass by (rule cci_passthrough)
  have "field_input s s (f, cls_name c @ ''_'' @ f, k) t" by (rule cci_field_input[OF run])
  then have "t = k"
    using assms(5)
  proof (elim disjE exE conjE)
    fix n m assume "field_input s s (f, cls_name c @ ''_'' @ f, k) t" "k = KLazy n m"
    then show ?thesis using wf_lazy[OF wf, of n m] by (simp add: field_input_def)
  next
    fix r' assume fi': "field_input s s (f, cls_name c @ ''_'' @ f, k) t" and k: "k = KType r'"
      and ne: "inputTypeGQLMapper s k \<noteq> None"
    have "inputTypeGQLMapper s (KType r') = Some r'" using wf_self[OF wf] ne k by simp
    then show ?thesis using fi' k by (simp add: field_input_def)
  qed
  then have one: "createCustomInput s f (cls_name c @ ''_'' @ f) k = Inr (k, s)"
    using run by simp
  note mf = map_of_fields[OF assms(3) len jt j(2), unfolded tj]
  have two: "map_of (ty_annotations (heap s' (ref_id w))) f = Some (TOptional (TKind k))"
    by (simp add: s' w where_ref_def built_heap createWhereOp_def Let_def mf)
  have three: "map_of (ty_annotations (heap s' (ref_id w - 1))) f = Some (TOptional (TKind k))"
    by (simp add: s' w where_ref_def built_heap createAnd_def Let_def mf)
  have four: "map_of (ty_annotations (heap s' (ref_id w - 2))) f = Some (TOptional (TKind k))"
    by (simp add: s' w where_ref_def built_heap createOr_def Let_def mf)
  show ?thesis using one two three four by blast
qed

theorem nested_filter_used_as_is_witness:
  "reachable (snd (projr (createInputs init_state MembershipInputWhereFilter)))
   \<and> createInputs (snd (projr (createInputs init_state MembershipInputWhereFilter)))
         (GroupInputWhereFilter (ClassRef 7 ''MembershipInputWhereFilter''))
       = Inr (ClassRef 10 ''GroupInputWhereFilter'',
              snd (projr (createInputs (snd (projr (createInputs init_state MembershipInputWhereFilter)))
                (GroupInputWhereFilter (ClassRef 7 ''MembershipInputWhereFilter'')))))
   \<and> inputTypeGQLMapper (snd (projr (createInputs init_state MembershipInputWhereFilter)))
         (KType (ClassRef 7 ''MembershipInputWhereFilter'')) \<noteq> None
   \<and> map_of (ty_annotations
         (heap (snd (projr (createInputs (snd (projr (createInputs init_state MembershipInputWhereFilter)))
                (GroupInputWhereFilter (ClassRef 7 ''MembershipInputWhereFilter''))))) 10))
         ''memberships''
       = Some (TOptional (TKind (KType (ClassRef 7 ''MembershipInputWhereFilter''))))
   \<and> map_of (ty_annotations
         (heap (snd (projr (createInputs init_state MembershipInputWhereFilter))) 7)) ''group''
       = Some (TOptional (TKind (KLazy ''GroupInputWhereFilter'' ''.groupGQLModel'')))"
proof -
  let ?s1 = "snd (projr (createInputs init_state MembershipInputWhereFilter))"
  let ?g = "GroupInputWhereFilter (ClassRef 7 ''MembershipInputWhereFilter'')"
  let ?s2 = "snd (projr (createInputs ?s1 ?g))"
  have a: "createInputs init_state MembershipInputWhereFilter
             = Inr (ClassRef 7 ''MembershipInputWhereFilter'', ?s1)"
    by (simp add: eval_defs MembershipInputWhereFilter_def)
  have r1: "reachable ?s1" by (rule reachable_step[OF reachable_init a])
  have m: "inputTypeGQLMapper ?s1 (KType (ClassRef 7 ''MembershipInputWhereFilter'')) \<noteq> None"
    using createInputs_fresh(3)[OF a] by simp
  have b: "createInputs ?s1 ?g = Inr (ClassRef 10 ''GroupInputWhereFilter'', ?s2)"
    by (simp add: eval_defs MembershipInputWhereFilter_def GroupInputWhereFilter_def)
  have d1: "distinct (map fst (cls_annotations MembershipInputWhereFilter))"
    by (simp add: MembershipInputWhereFilter_def)
  have d2: "distinct (map fst (cls_annotations ?g))"
    by (simp add: GroupInputWhereFilter_def)
  have f1: "(''group'', KLazy ''GroupInputWhereFilter'' ''.groupGQLModel'')
              \<in> set (cls_annotations MembershipInputWhereFilter)"
    by (simp add: MembershipInputWhereFilter_def)
  have f2: "(''memberships'', KType (ClassRef 7 ''MembershipInputWhereFilter''))
              \<in> set (cls_annotations ?g)"
    by (simp add: GroupInputWhereFilter_def)
  have k1: "(\<exists>n m. KLazy ''GroupInputWhereFilter'' ''.groupGQLModel'' = KLazy n m)
            \<or> (\<exists>r. KLazy ''GroupInputWhereFilter'' ''.groupGQLModel'' = KType r
                  \<and> inputTypeGQLMapper init_state
                        (KLazy ''GroupInputWhereFilter'' ''.groupGQLModel'') \<noteq> None)"
    by simp
  have k2: "(\<exists>n m. KType (ClassRef 7 ''MembershipInputWhereFilter'') = KLazy n m)
            \<or> (\<exists>r. KType (ClassRef 7 ''MembershipInputWhereFilter'') = KType r
                  \<and> inputTypeGQLMapper ?s1 (KType (ClassRef 7 ''MembershipInputWhereFilter''))
                      \<noteq> None)"
    using m by simp
  note t1 = nested_filter_used_as_is[OF reachable_init a d1 f1 k1]
  note t2 = nested_filter_used_as_is[OF r1 b d2 f2 k2]
  show ?thesis
  proof (intro conjI)
    show "reachable ?s1" by (rule r1)
    show "createInputs ?s1 ?g = Inr (ClassRef 10 ''GroupInputWhereFilter'', ?s2)" by (rule b)
    show "inputTypeGQLMapper ?s1 (KType (ClassRef 7 ''MembershipInputWhereFilter'')) \<noteq> None"
      by (rule m)
    show "map_of (ty_annotations (heap ?s2 10)) ''memberships''
            = Some (TOptional (TKind (KType (ClassRef 7 ''MembershipInputWhereFilter''))))"
      using t2 by simp
    show "map_of (ty_annotations (heap ?s1 7)) ''group''
            = Some (TOptional (TKind (KLazy ''GroupInputWhereFilter'' ''.groupGQLModel'')))"
      using t1 by simp
  qed
qed

subsection \<open>Mutation handlers\<close>



text \<open>
  Outside the loader's interface: were \<open>insert\<close> to return \<open>None\<close>, \<open>group_insert\<close> would
  raise on \<open>updatedrow.id\<close> before it reaches its test for \<open>None\<close>.
\<close>

lemma group_insert_none_raises:
  "loader_insert ld m = None \<Longrightarrow> group_insert ld m = Inl AttributeError"
  by (simp add: handler_defs)

subsection \<open>Reference resolution\<close>

text \<open>
  Claim C10. With the id \<open>None\<close>, \<open>resolve_reference\<close> returns \<open>None\<close> and the loader is
  not called (the list of calls is unchanged). With a UUID it calls the loader's \<open>load\<close>
  once, with that UUID, and returns what the loader returned (a found entity carries the
  model's definition). With a string it parses the string first and goes on in the same
  way with the parsed UUID; a string that does not parse raises ValueError.
\<close>

theorem resolve_reference_spec:
  "resolve_reference d parse ld calls IdNone = Inr (None, calls)
   \<and> resolve_reference d parse ld calls (IdUuid u) =
       Inr (map_option (\<lambda>r. r\<lparr>strawberry_definition := Some d\<rparr>) (loader_load ld u),
            calls @ [u])
   \<and> resolve_reference d parse ld calls (IdStr str) =
       (case parse str of
          None \<Rightarrow> Inl ValueError
        | Some u \<Rightarrow>
            Inr (map_option (\<lambda>r. r\<lparr>strawberry_definition := Some d\<rparr>) (loader_load ld u),
                 calls @ [u]))"
  by (simp add: resolve_reference_def load_logged_def split: option.splits)


end
